theory Spec2Isabelle
  imports Complex_Main "HOL-Library.Word" "HOL-Library.Log_Nat"
begin

unbundle bit_operations_syntax

section \<open>Values exchanged with the camera\<close>

text \<open>
  The camera speaks JSON. A decoded document is a Python value built from \<open>None\<close>,
  booleans, integers, strings, lists and dicts. A dict is kept as the list of its items in
  insertion order (Python dicts are ordered); a dict built by the JSON decoder has distinct
  keys, so looking a key up from the front is Python's lookup. JSON numbers with a fraction
  are not represented: no operation below inspects a number.
\<close>

datatype json =
    JNull
  | JBool bool
  | JNum int
  | JStr string
  | JArr "json list"
  | JObj "(string \<times> json) list"

type_synonym byte = "8 word"

text \<open>
  The exceptions that reach the tool layer, with the text \<open>str(e)\<close> yields. The tool layer
  has three handlers, tried in this order: \<open>requests.exceptions.RequestException\<close>,
  \<open>ValueError\<close>, \<open>Exception\<close>. \<open>OtherError\<close> stands for every exception class that only the
  last handler catches (\<open>TypeError\<close>, \<open>AttributeError\<close>, \<open>KeyError\<close>, \<open>OSError\<close>). The
  texts of the exceptions that the interpreter raises are CPython 3.11's.
\<close>

datatype exn =
    RequestException string
  | ValueError string
  | OtherError string

fun exn_str :: "exn \<Rightarrow> string" where
  "exn_str (RequestException m) = m"
| "exn_str (ValueError m) = m"
| "exn_str (OtherError m) = m"

subsection \<open>Rendering values as Python prints them\<close>

definition digit_char :: "nat \<Rightarrow> char" where
  "digit_char d = char_of (48 + d)"

fun show_nat :: "nat \<Rightarrow> string" where
  "show_nat n = (if n < 10 then [digit_char n] else show_nat (n div 10) @ [digit_char (n mod 10)])"

declare show_nat.simps [simp del]

definition show_int :: "int \<Rightarrow> string" where
  "show_int i = (if i < 0 then CHR ''-'' # show_nat (nat (- i)) else show_nat (nat i))"

definition hex_char :: "nat \<Rightarrow> char" where
  "hex_char d = (if d < 10 then char_of (48 + d) else char_of (87 + d))"

text \<open>
  \<open>repr\<close> of a \<open>str\<close>: double quotes when the text has a single quote and no double quote,
  single quotes otherwise; the quote and the backslash are escaped, tab, newline and carriage
  return get their letter, other control characters are written \<open>\xNN\<close>. Characters from 128
  on are passed through (they are the UTF-8 bytes of printable characters).
\<close>

definition repr_quote :: "string \<Rightarrow> char" where
  "repr_quote s = (if CHR 0x27 \<in> set s \<and> CHR 0x22 \<notin> set s then CHR 0x22 else CHR 0x27)"

definition repr_char :: "char \<Rightarrow> char \<Rightarrow> string" where
  "repr_char q c =
     (if c = q \<or> c = CHR 0x5C then [CHR 0x5C, c]
      else if c = CHR 0x09 then [CHR 0x5C, CHR ''t'']
      else if c = CHR 0x0A then [CHR 0x5C, CHR ''n'']
      else if c = CHR 0x0D then [CHR 0x5C, CHR ''r'']
      else if of_char c < (32::nat) \<or> of_char c = (127::nat)
        then [CHR 0x5C, CHR ''x'', hex_char (of_char c div 16), hex_char (of_char c mod 16)]
      else [c])"

definition repr_str :: "string \<Rightarrow> string" where
  "repr_str s = (let q = repr_quote s in [q] @ concat (map (repr_char q) s) @ [q])"

fun join :: "string \<Rightarrow> string list \<Rightarrow> string" where
  "join sep [] = []"
| "join sep [x] = x"
| "join sep (x # y # ys) = x @ sep @ join sep (y # ys)"

fun py_repr :: "json \<Rightarrow> string" where
  "py_repr JNull = ''None''"
| "py_repr (JBool b) = (if b then ''True'' else ''False'')"
| "py_repr (JNum i) = show_int i"
| "py_repr (JStr s) = repr_str s"
| "py_repr (JArr xs) = ''['' @ join '', '' (map py_repr xs) @ '']''"
| "py_repr (JObj kvs) =
     ''{'' @ join '', '' (map (\<lambda>kv. repr_str (fst kv) @ '': '' @ py_repr (snd kv)) kvs) @ ''}''"

subsection \<open>Python's \<open>in\<close>, indexing and \<open>.get\<close> on decoded values\<close>

fun type_name :: "json \<Rightarrow> string" where
  "type_name JNull = ''NoneType''"
| "type_name (JBool b) = ''bool''"
| "type_name (JNum i) = ''int''"
| "type_name (JStr s) = ''str''"
| "type_name (JArr xs) = ''list''"
| "type_name (JObj kvs) = ''dict''"

fun starts_with :: "string \<Rightarrow> string \<Rightarrow> bool" where
  "starts_with [] s = True"
| "starts_with (p # ps) [] = False"
| "starts_with (p # ps) (c # cs) = (p = c \<and> starts_with ps cs)"

fun str_contains :: "string \<Rightarrow> string \<Rightarrow> bool" where
  "str_contains p [] = (p = [])"
| "str_contains p (c # cs) = (starts_with p (c # cs) \<or> str_contains p cs)"

text \<open>
  \<open>x in container\<close> for a string \<open>x\<close>: a key of a dict, an element of a list, a substring
  of a string; every other value is not iterable and the test raises \<open>TypeError\<close>.
\<close>

fun py_in :: "string \<Rightarrow> json \<Rightarrow> exn + bool" where
  "py_in x (JObj kvs) = Inr (x \<in> set (map fst kvs))"
| "py_in x (JArr xs) = Inr (JStr x \<in> set xs)"
| "py_in x (JStr s) = Inr (str_contains x s)"
| "py_in x v =
     Inl (OtherError (''argument of type '' @ [CHR 0x27] @ type_name v @ [CHR 0x27]
            @ '' is not iterable''))"

text \<open>\<open>container[key]\<close> for a string key: only a dict can be indexed by a string.\<close>

fun py_getitem :: "json \<Rightarrow> string \<Rightarrow> exn + json" where
  "py_getitem (JObj kvs) k =
     (case map_of kvs k of Some v \<Rightarrow> Inr v | None \<Rightarrow> Inl (OtherError (repr_str k)))"
| "py_getitem (JArr xs) k = Inl (OtherError ''list indices must be integers or slices, not str'')"
| "py_getitem (JStr s) k =
     Inl (OtherError (''string indices must be integers, not '' @ [CHR 0x27] @ ''str'' @ [CHR 0x27]))"
| "py_getitem v k =
     Inl (OtherError ([CHR 0x27] @ type_name v @ [CHR 0x27] @ '' object is not subscriptable''))"

text \<open>\<open>container.get(key)\<close>: \<open>None\<close> for a missing key; only a dict has the method.\<close>

fun py_get :: "json \<Rightarrow> string \<Rightarrow> exn + json" where
  "py_get (JObj kvs) k = (case map_of kvs k of Some v \<Rightarrow> Inr v | None \<Rightarrow> Inr JNull)"
| "py_get v k =
     Inl (OtherError ([CHR 0x27] @ type_name v @ [CHR 0x27] @ '' object has no attribute ''
            @ [CHR 0x27] @ ''get'' @ [CHR 0x27]))"

text \<open>\<open>d[key] = v\<close> on a dict: an existing key keeps its place, a new one goes last.\<close>

fun dict_set :: "(string \<times> json) list \<Rightarrow> string \<Rightarrow> json \<Rightarrow> (string \<times> json) list" where
  "dict_set [] k v = [(k, v)]"
| "dict_set (p # ps) k v = (if fst p = k then (k, v) # ps else p # dict_set ps k v)"

section \<open>The HTTP transport\<close>

text \<open>
  One call of the \<open>requests\<close> library: the method, the URL, the JSON body if any, and the
  \<open>timeout\<close> argument in seconds (\<open>None\<close> when the call passes none, which lets the
  library wait without bound).
\<close>

datatype http_method = GET | PUT | POST

record request =
  meth :: http_method
  url :: string
  body :: "json option"
  timeout :: "nat option"

text \<open>
  A response carries its status, its reason phrase, its raw content and what
  \<open>response.json()\<close> makes of it: the decoded value, or the decoder's complaint when the
  content is not JSON.
\<close>

record response =
  status_code :: nat
  reason :: string
  content :: "byte list"
  json_body :: "string + json"

text \<open>The camera either does not answer (the library raises, with a text) or answers.\<close>

datatype reply = NoReply string | Reply response

text \<open>
  The camera is a state machine that the client cannot see into: it maps its state and a
  request to a reply and its next state. The world threads the camera's state and the
  requests the process has issued so far, oldest first.
\<close>

type_synonym 'c network = "'c \<Rightarrow> request \<Rightarrow> reply \<times> 'c"

record 'c world =
  camera_state :: 'c
  sent :: "request list"

definition requests_call :: "'c network \<Rightarrow> request \<Rightarrow> 'c world \<Rightarrow> (exn + response) \<times> 'c world" where
  "requests_call net rq w =
     (case net (camera_state w) rq of
        (rp, c') \<Rightarrow>
          (case rp of NoReply m \<Rightarrow> Inl (RequestException m) | Reply r \<Rightarrow> Inr r,
           \<lparr>camera_state = c', sent = sent w @ [rq]\<rparr>))"

text \<open>\<open>Response.raise_for_status\<close>: an \<open>HTTPError\<close> for a 4xx or 5xx status, nothing otherwise.\<close>

definition raise_for_status :: "string \<Rightarrow> response \<Rightarrow> exn + unit" where
  "raise_for_status u r =
     (if 400 \<le> status_code r \<and> status_code r < 500
        then Inl (RequestException
               (show_nat (status_code r) @ '' Client Error: '' @ reason r @ '' for url: '' @ u))
      else if 500 \<le> status_code r \<and> status_code r < 600
        then Inl (RequestException
               (show_nat (status_code r) @ '' Server Error: '' @ reason r @ '' for url: '' @ u))
      else Inr ())"

text \<open>
  \<open>Response.json\<close>: content that is not JSON raises the library's \<open>JSONDecodeError\<close>, which
  is a \<open>RequestException\<close> (and a \<open>ValueError\<close>; the first handler wins).
\<close>

definition response_json :: "response \<Rightarrow> exn + json" where
  "response_json r =
     (case json_body r of
        Inl m \<Rightarrow> Inl (RequestException m)
      | Inr j \<Rightarrow> Inr j)"

section \<open>The camera client (canon_camera.py)\<close>

record CanonCamera =
  ip :: "string option"
  port :: int
  base_url :: string

text \<open>
  \<open>__init__\<close>: the address is the argument, or the environment's \<open>CANON_IP\<close> when the
  argument is \<open>None\<close> or empty.
\<close>

definition CanonCamera_init :: "string option \<Rightarrow> string option \<Rightarrow> int \<Rightarrow> CanonCamera" where
  "CanonCamera_init env_ip ip_arg port_arg =
     (let i = (if ip_arg = None \<or> ip_arg = Some [] then env_ip else ip_arg)
      in \<lparr>ip = i, port = port_arg,
          base_url = ''http://'' @ (case i of None \<Rightarrow> ''None'' | Some a \<Rightarrow> a) @ '':''
                     @ show_int port_arg\<rparr>)"

text \<open>\<open>_get\<close> and \<open>_put\<close>: one request with a timeout of 10 seconds, then the status check.\<close>

definition camera_get :: "'c network \<Rightarrow> CanonCamera \<Rightarrow> string \<Rightarrow> 'c world \<Rightarrow> (exn + response) \<times> 'c world" where
  "camera_get net self path w =
     (let u = base_url self @ path in
      case requests_call net \<lparr>meth = GET, url = u, body = None, timeout = Some 10\<rparr> w of
        (Inl e, w') \<Rightarrow> (Inl e, w')
      | (Inr r, w') \<Rightarrow>
          (case raise_for_status u r of Inl e \<Rightarrow> (Inl e, w') | Inr _ \<Rightarrow> (Inr r, w')))"

definition camera_put :: "'c network \<Rightarrow> CanonCamera \<Rightarrow> string \<Rightarrow> json \<Rightarrow> 'c world \<Rightarrow> (exn + response) \<times> 'c world" where
  "camera_put net self path data w =
     (let u = base_url self @ path in
      case requests_call net \<lparr>meth = PUT, url = u, body = Some data, timeout = Some 10\<rparr> w of
        (Inl e, w') \<Rightarrow> (Inl e, w')
      | (Inr r, w') \<Rightarrow>
          (case raise_for_status u r of Inl e \<Rightarrow> (Inl e, w') | Inr _ \<Rightarrow> (Inr r, w')))"

definition get_all_settings :: "'c network \<Rightarrow> CanonCamera \<Rightarrow> 'c world \<Rightarrow> (exn + json) \<times> 'c world" where
  "get_all_settings net self w =
     (case camera_get net self ''/ccapi/ver100/shooting/settings'' w of
        (Inl e, w') \<Rightarrow> (Inl e, w')
      | (Inr r, w') \<Rightarrow> (response_json r, w'))"

definition setting_path :: "string \<Rightarrow> string" where
  "setting_path setting_name = ''/ccapi/ver100/shooting/settings/'' @ setting_name"

definition get_setting :: "'c network \<Rightarrow> CanonCamera \<Rightarrow> string \<Rightarrow> 'c world \<Rightarrow> (exn + json) \<times> 'c world" where
  "get_setting net self setting_name w =
     (case camera_get net self (setting_path setting_name) w of
        (Inl e, w') \<Rightarrow> (Inl e, w')
      | (Inr r, w') \<Rightarrow> (response_json r, w'))"

text \<open>
  The test \<open>"ability" in current and value not in current["ability"]\<close>, with Python's
  short-circuit \<open>and\<close>: each part can raise on a value of the wrong shape.
\<close>

definition value_rejected :: "json \<Rightarrow> string \<Rightarrow> exn + bool" where
  "value_rejected current v =
     (case py_in ''ability'' current of
        Inl e \<Rightarrow> Inl e
      | Inr False \<Rightarrow> Inr False
      | Inr True \<Rightarrow>
          (case py_getitem current ''ability'' of
             Inl e \<Rightarrow> Inl e
           | Inr ab \<Rightarrow> (case py_in v ab of Inl e \<Rightarrow> Inl e | Inr b \<Rightarrow> Inr (\<not> b))))"

definition invalid_value_message :: "string \<Rightarrow> string \<Rightarrow> json \<Rightarrow> string" where
  "invalid_value_message v setting_name ab =
     ''Invalid value '' @ [CHR 0x27] @ v @ [CHR 0x27] @ '' for '' @ setting_name
       @ ''. Available options: '' @ py_repr ab"

definition set_setting :: "'c network \<Rightarrow> CanonCamera \<Rightarrow> string \<Rightarrow> string \<Rightarrow> 'c world \<Rightarrow> (exn + json) \<times> 'c world" where
  "set_setting net self setting_name v w =
     (case get_setting net self setting_name w of
        (Inl e, w1) \<Rightarrow> (Inl e, w1)
      | (Inr current, w1) \<Rightarrow>
          (case value_rejected current v of
             Inl e \<Rightarrow> (Inl e, w1)
           | Inr True \<Rightarrow>
               (case py_getitem current ''ability'' of
                  Inl e \<Rightarrow> (Inl e, w1)
                | Inr ab \<Rightarrow> (Inl (ValueError (invalid_value_message v setting_name ab)), w1))
           | Inr False \<Rightarrow>
               (case camera_put net self (setting_path setting_name)
                       (JObj [(''value'', JStr v)]) w1 of
                  (Inl e, w2) \<Rightarrow> (Inl e, w2)
                | (Inr r, w2) \<Rightarrow>
                    (case raise_for_status (base_url self @ setting_path setting_name) r of
                       Inl e \<Rightarrow> (Inl e, w2)
                     | Inr _ \<Rightarrow>
                         (case py_get current ''value'' of
                            Inl e \<Rightarrow> (Inl e, w2)
                          | Inr prev \<Rightarrow>
                              (Inr (JObj [(''setting'', JStr setting_name),
                                          (''previous_value'', prev),
                                          (''new_value'', JStr v),
                                          (''success'', JBool True)]), w2))))))"

section \<open>The tool layer (server.py): settings\<close>

text \<open>
  Each tool returns \<open>json.dumps(v, indent=2)\<close> for a dict \<open>v\<close>; the model returns \<open>v\<close>, the
  value that is serialised. Logging has no effect on a result and is left out. The parameter
  of \<open>get_camera_settings\<close> is annotated \<open>Literal["all", "av", "tv", "iso"]\<close>, which Python
  does not check: the function is modelled for every string, as its body treats it.
\<close>

definition error_envelope :: "string \<Rightarrow> string \<Rightarrow> json" where
  "error_envelope kind msg =
     JObj [(''success'', JBool False), (''error'', JStr kind), (''message'', JStr msg)]"

text \<open>The three \<open>except\<close> clauses of the settings tools, in the order they are tried.\<close>

fun settings_handler :: "exn \<Rightarrow> json" where
  "settings_handler (RequestException m) =
     error_envelope ''camera_communication_error'' (''Failed to communicate with camera: '' @ m)"
| "settings_handler (ValueError m) = error_envelope ''invalid_parameter'' m"
| "settings_handler (OtherError m) = error_envelope ''internal_error'' (''Unexpected error: '' @ m)"

definition invalid_setting_message :: "string \<Rightarrow> string list \<Rightarrow> string" where
  "invalid_setting_message setting valid_settings =
     ''Invalid setting '' @ [CHR 0x27] @ setting @ [CHR 0x27] @ ''. Valid options: ''
       @ py_repr (JArr (map JStr valid_settings))"

definition keys_to_keep :: "string list" where
  "keys_to_keep = [''av'', ''tv'', ''iso'', ''shootingmodedial'']"

definition read_valid_settings :: "string list" where
  "read_valid_settings = [''av'', ''tv'', ''iso'', ''shootingmodedial'']"

definition write_valid_settings :: "string list" where
  "write_valid_settings = [''av'', ''tv'', ''iso'']"

text \<open>
  The comprehension \<open>{key: result[key] for key in keys_to_keep if key in result}\<close>: the keys
  are visited in the order of the list, and the first test or lookup that raises ends it.
\<close>

fun project_keys :: "json \<Rightarrow> string list \<Rightarrow> exn + (string \<times> json) list" where
  "project_keys doc [] = Inr []"
| "project_keys doc (k # ks) =
     (case py_in k doc of
        Inl e \<Rightarrow> Inl e
      | Inr False \<Rightarrow> project_keys doc ks
      | Inr True \<Rightarrow>
          (case py_getitem doc k of
             Inl e \<Rightarrow> Inl e
           | Inr v \<Rightarrow>
               (case project_keys doc ks of
                  Inl e \<Rightarrow> Inl e
                | Inr rest \<Rightarrow> Inr ((k, v) # rest))))"

text \<open>\<open>result["setting_name"] = setting\<close>: only a dict takes an item under a string key.\<close>

fun py_setitem :: "json \<Rightarrow> string \<Rightarrow> json \<Rightarrow> exn + json" where
  "py_setitem (JObj kvs) k v = Inr (JObj (dict_set kvs k v))"
| "py_setitem (JArr xs) k v =
     Inl (OtherError ''list indices must be integers or slices, not str'')"
| "py_setitem d k v =
     Inl (OtherError ([CHR 0x27] @ type_name d @ [CHR 0x27]
            @ '' object does not support item assignment''))"

definition get_camera_settings :: "'c network \<Rightarrow> CanonCamera \<Rightarrow> string \<Rightarrow> 'c world \<Rightarrow> json \<times> 'c world" where
  "get_camera_settings net camera setting w =
     (if setting = ''all'' then
        (case get_all_settings net camera w of
           (Inl e, w') \<Rightarrow> (settings_handler e, w')
         | (Inr result, w') \<Rightarrow>
             (case project_keys result keys_to_keep of
                Inl e \<Rightarrow> (settings_handler e, w')
              | Inr kvs \<Rightarrow> (JObj kvs, w')))
      else if setting \<notin> set read_valid_settings then
        (settings_handler (ValueError (invalid_setting_message setting read_valid_settings)), w)
      else
        (case get_setting net camera setting w of
           (Inl e, w') \<Rightarrow> (settings_handler e, w')
         | (Inr result, w') \<Rightarrow>
             (case py_setitem result ''setting_name'' (JStr setting) of
                Inl e \<Rightarrow> (settings_handler e, w')
              | Inr result' \<Rightarrow> (result', w'))))"

definition set_camera_setting :: "'c network \<Rightarrow> CanonCamera \<Rightarrow> string \<Rightarrow> string \<Rightarrow> 'c world \<Rightarrow> json \<times> 'c world" where
  "set_camera_setting net camera setting v w =
     (if setting \<notin> set write_valid_settings then
        (settings_handler (ValueError (invalid_setting_message setting write_valid_settings)), w)
      else if v = [] then
        (settings_handler (ValueError ''Value is required''), w)
      else
        (case set_setting net camera setting v w of
           (Inl e, w') \<Rightarrow> (settings_handler e, w')
         | (Inr result, w') \<Rightarrow> (result, w')))"

section \<open>Live view (canon_camera.py)\<close>

text \<open>
  \<open>init_live_view\<close>: one \<open>POST\<close>, issued by \<open>requests.post(url, json=body)\<close> with no
  \<open>timeout\<close> argument; the status code is returned unchecked, an exception of the transport
  is logged and raised again.
\<close>

definition init_live_view :: "'c network \<Rightarrow> CanonCamera \<Rightarrow> string \<Rightarrow> string \<Rightarrow> 'c world \<Rightarrow> (exn + nat) \<times> 'c world" where
  "init_live_view net self liveviewsize cameradisplay w =
     (let u = base_url self @ ''/ccapi/ver100/shooting/liveview/'';
          b = JObj [(''liveviewsize'', JStr liveviewsize), (''cameradisplay'', JStr cameradisplay)]
      in case requests_call net \<lparr>meth = POST, url = u, body = Some b, timeout = None\<rparr> w of
           (Inl e, w') \<Rightarrow> (Inl e, w')
         | (Inr res, w') \<Rightarrow> (Inr (status_code res), w'))"

subsection \<open>Base64 as the standard library computes it\<close>

text \<open>
  \<open>base64.b64encode\<close> is \<open>binascii.b2a_base64\<close> without the newline: three bytes become
  four characters of the alphabet, a rest of one or two bytes is padded with \<open>=\<close>.
\<close>

definition byte_of_char :: "char \<Rightarrow> byte" where
  "byte_of_char c = of_nat (of_char c)"

definition char_of_byte :: "byte \<Rightarrow> char" where
  "char_of_byte b = char_of (unat b)"

definition b64_alphabet :: string where
  "b64_alphabet = ''ABCDEFGHIJKLMNOPQRSTUVWXYZabcdefghijklmnopqrstuvwxyz0123456789+/''"

definition table_b2a_base64 :: "byte list" where
  "table_b2a_base64 = map byte_of_char b64_alphabet"

definition BASE64_PAD :: byte where
  "BASE64_PAD = 61"

definition b2a :: "byte \<Rightarrow> byte" where
  "b2a s = table_b2a_base64 ! unat s"

fun index_of :: "'a \<Rightarrow> 'a list \<Rightarrow> nat option" where
  "index_of x [] = None"
| "index_of x (y # ys) = (if x = y then Some 0 else map_option Suc (index_of x ys))"

definition table_a2b_base64 :: "byte \<Rightarrow> byte option" where
  "table_a2b_base64 c = map_option of_nat (index_of c table_b2a_base64)"

fun b2a_base64 :: "byte list \<Rightarrow> byte list" where
  "b2a_base64 (a # b # c # rest) =
     [b2a (drop_bit 2 a),
      b2a (push_bit 4 (a AND 3) OR drop_bit 4 b),
      b2a (push_bit 2 (b AND 15) OR drop_bit 6 c),
      b2a (c AND 63)] @ b2a_base64 rest"
| "b2a_base64 [a, b] =
     [b2a (drop_bit 2 a),
      b2a (push_bit 4 (a AND 3) OR drop_bit 4 b),
      b2a (push_bit 2 (b AND 15)),
      BASE64_PAD]"
| "b2a_base64 [a] =
     [b2a (drop_bit 2 a), b2a (push_bit 4 (a AND 3)), BASE64_PAD, BASE64_PAD]"
| "b2a_base64 [] = []"

definition b64encode :: "byte list \<Rightarrow> byte list" where
  "b64encode bs = b2a_base64 bs"

text \<open>
  \<open>binascii.a2b_base64\<close> in its default mode, as \<open>base64.b64decode\<close> calls it: a scan with
  the position in the current group of four, the bits left over and the count of padding
  characters seen. A character outside the alphabet is skipped. A \<open>=\<close> ends the scan once it
  completes a group of which at least two characters were data, and is skipped otherwise. At the
  end of the input a group left open is an error (\<open>binascii.Error\<close>, a \<open>ValueError\<close>).
\<close>

fun a2b_base64 :: "byte list \<Rightarrow> nat \<Rightarrow> byte \<Rightarrow> nat \<Rightarrow> byte list \<Rightarrow> exn + byte list" where
  "a2b_base64 [] quad_pos leftchar pads bin =
     (if quad_pos = 0 then Inr bin
      else if quad_pos = 1 then
        Inl (ValueError (''Invalid base64-encoded string: number of data characters (''
               @ show_nat (length bin div 3 * 4 + 1)
               @ '') cannot be 1 more than a multiple of 4''))
      else Inl (ValueError ''Incorrect padding''))"
| "a2b_base64 (this_ch # rest) quad_pos leftchar pads bin =
     (if this_ch = BASE64_PAD then
        (if 2 \<le> quad_pos then
           (if 4 \<le> quad_pos + (pads + 1) then Inr bin
            else a2b_base64 rest quad_pos leftchar (pads + 1) bin)
         else a2b_base64 rest quad_pos leftchar pads bin)
      else
        (case table_a2b_base64 this_ch of
           None \<Rightarrow> a2b_base64 rest quad_pos leftchar pads bin
         | Some s \<Rightarrow>
             (if quad_pos = 0 then a2b_base64 rest 1 s 0 bin
              else if quad_pos = 1 then
                a2b_base64 rest 2 (s AND 15) 0 (bin @ [push_bit 2 leftchar OR drop_bit 4 s])
              else if quad_pos = 2 then
                a2b_base64 rest 3 (s AND 3) 0 (bin @ [push_bit 4 leftchar OR drop_bit 2 s])
              else
                a2b_base64 rest 0 0 0 (bin @ [push_bit 6 leftchar OR s]))))"

text \<open>\<open>b64decode\<close> of a \<open>str\<close>: the text must be ASCII, then its bytes are scanned.\<close>

definition bytes_from_decode_data :: "string \<Rightarrow> exn + byte list" where
  "bytes_from_decode_data s =
     (if list_all (\<lambda>c. of_char c < (128::nat)) s then Inr (map byte_of_char s)
      else Inl (ValueError ''string argument should contain only ASCII characters''))"

definition b64decode :: "string \<Rightarrow> exn + byte list" where
  "b64decode s =
     (case bytes_from_decode_data s of
        Inl e \<Rightarrow> Inl e
      | Inr bs \<Rightarrow> a2b_base64 bs 0 0 0 [])"

subsection \<open>Fetching a frame\<close>

text \<open>
  \<open>get_liveview_image\<close>: one \<open>GET\<close> with a timeout of 15 seconds, the status check, and the
  content as base64 text (the encoder's bytes are ASCII, so decoding them as UTF-8 gives the
  same characters) followed by a newline.
\<close>

definition liveview_text :: "byte list \<Rightarrow> string" where
  "liveview_text bs = map char_of_byte (b64encode bs) @ [CHR 0x0A]"

definition get_liveview_image :: "'c network \<Rightarrow> CanonCamera \<Rightarrow> 'c world \<Rightarrow> (exn + string) \<times> 'c world" where
  "get_liveview_image net self w =
     (let u = base_url self @ ''/ccapi/ver100/shooting/liveview/flip'' in
      case requests_call net \<lparr>meth = GET, url = u, body = None, timeout = Some 15\<rparr> w of
        (Inl e, w') \<Rightarrow> (Inl e, w')
      | (Inr r, w') \<Rightarrow>
          (case raise_for_status u r of
             Inl e \<Rightarrow> (Inl e, w')
           | Inr _ \<Rightarrow> (Inr (liveview_text (content r)), w')))"

section \<open>The image size adapter (server.py)\<close>

subsection \<open>Python floats\<close>

text \<open>
  The resolution search counts its scale factor down in Python floats, so where it stops
  depends on their rounding. A float is kept as the rational number it stands for. \<open>fl\<close>
  rounds a rational to the nearest double (53 bits, ties to even, subnormals below the
  exponent -1022); a float literal, a difference and a product are the exact result rounded.
  Overflow to infinity is left out: it needs a magnitude of 2 to the 1024, and the only large
  operand here is an image dimension, which the imaging library keeps in a C \<open>int\<close>.
\<close>

definition round_half_even :: "rat \<Rightarrow> int" where
  "round_half_even x =
     (let f = \<lfloor>x\<rfloor>; d = x - of_int f
      in if d < 1 / 2 then f else if 1 / 2 < d then f + 1 else if even f then f else f + 1)"

text \<open>The exponent \<open>e\<close> of the power of two at or below \<open>|x|\<close>, for \<open>x \<noteq> 0\<close>.\<close>

definition binade :: "rat \<Rightarrow> int" where
  "binade x =
     (let (p, q) = quotient_of \<bar>x\<bar>; k = bitlen p - bitlen q
      in if 2 powi k \<le> \<bar>x\<bar> then k else k - 1)"

definition fl :: "rat \<Rightarrow> rat" where
  "fl x =
     (if x = 0 then 0
      else let e = max (binade x) (- 1022) - 52
           in of_int (round_half_even (x / 2 powi e)) * 2 powi e)"

definition fsub :: "rat \<Rightarrow> rat \<Rightarrow> rat" where
  "fsub a b = fl (a - b)"

definition fmul :: "rat \<Rightarrow> rat \<Rightarrow> rat" where
  "fmul a b = fl (a * b)"

definition float_of_int :: "int \<Rightarrow> rat" where
  "float_of_int i = fl (of_int i)"

text \<open>\<open>int(x)\<close> of a float: the fraction is cut off, towards zero.\<close>

definition py_int :: "rat \<Rightarrow> int" where
  "py_int x = (if 0 \<le> x then \<lfloor>x\<rfloor> else \<lceil>x\<rceil>)"

subsection \<open>The imaging library\<close>

text \<open>
  The operations of the imaging library that the adapter calls, as parameters: opening
  encoded bytes (which fails, with a text, on bytes that are no image), the mode and the size
  of an image, conversion to RGB, resizing with the Lanczos filter (which raises on a size the
  library refuses: Pillow raises \<open>ValueError\<close> when a side is below one pixel), and saving as
  JPEG at a quality or as PNG, both with \<open>optimize=True\<close>. The number of bytes written, which
  the code reads with \<open>tell()\<close>, is the length of the buffer.
\<close>

record 'img pil =
  im_open :: "byte list \<Rightarrow> string + 'img"
  im_mode :: "'img \<Rightarrow> string"
  im_size :: "'img \<Rightarrow> nat \<times> nat"
  im_convert_rgb :: "'img \<Rightarrow> 'img"
  im_resize :: "'img \<Rightarrow> int \<times> int \<Rightarrow> exn + 'img"
  save_jpeg :: "'img \<Rightarrow> int \<Rightarrow> byte list"
  save_png :: "'img \<Rightarrow> byte list"

text \<open>
  \<open>format.upper() == "JPEG"\<close>. Only the letters \<open>a\<close> to \<open>z\<close> are mapped: no other character
  has one of \<open>J\<close>, \<open>P\<close>, \<open>E\<close>, \<open>G\<close> as its upper case, so the test is Python's.
\<close>

definition upper_char :: "char \<Rightarrow> char" where
  "upper_char c =
     (if (97::nat) \<le> of_char c \<and> of_char c \<le> (122::nat) then char_of (of_char c - (32::nat))
      else c)"

definition is_jpeg :: "string \<Rightarrow> bool" where
  "is_jpeg fmt = (map upper_char fmt = ''JPEG'')"

subsection \<open>Phase 2: \<open>resize_and_compress_image\<close>\<close>

text \<open>
  One pass of the body of the loop: the new size, the resized image, its encoding. An exception
  of \<open>resize\<close> leaves the function, as nothing in it catches one.
\<close>

definition scaled_dimension :: "nat \<Rightarrow> rat \<Rightarrow> int" where
  "scaled_dimension original scale_factor =
     py_int (fmul (float_of_int (int original)) scale_factor)"

definition resized_image :: "'img pil \<Rightarrow> 'img \<Rightarrow> rat \<Rightarrow> exn + 'img" where
  "resized_image P pil_img scale_factor =
     (let (original_width, original_height) = im_size P pil_img;
          new_width = scaled_dimension original_width scale_factor;
          new_height = scaled_dimension original_height scale_factor
      in im_resize P pil_img (new_width, new_height))"

definition resized_buffer :: "'img pil \<Rightarrow> 'img \<Rightarrow> string \<Rightarrow> rat \<Rightarrow> exn + byte list" where
  "resized_buffer P pil_img fmt scale_factor =
     (case resized_image P pil_img scale_factor of
        Inl e \<Rightarrow> Inl e
      | Inr resized_img \<Rightarrow>
          Inr (if is_jpeg fmt then save_jpeg P resized_img 75 else save_png P resized_img))"

text \<open>
  The loop \<open>while scale_factor > 0.1\<close>, with the buffer of the pass before (\<open>None\<close> before
  the first pass). The function is partial: its result is \<open>None\<close> where the loop does not end.
  After the loop, \<open>img_byte_arr.getvalue()\<close> raises \<open>AttributeError\<close> when no pass has run.
\<close>

partial_function (option) resize_loop ::
  "'img pil \<Rightarrow> 'img \<Rightarrow> int \<Rightarrow> string \<Rightarrow> rat \<Rightarrow> byte list option \<Rightarrow> (exn + byte list) option" where
  "resize_loop P pil_img target_size_bytes fmt scale_factor img_byte_arr =
     (if fl (1 / 10) < scale_factor then
        (case resized_buffer P pil_img fmt scale_factor of
           Inl e \<Rightarrow> Some (Inl e)
         | Inr buf \<Rightarrow>
             if int (length buf) \<le> target_size_bytes then Some (Inr buf)
             else resize_loop P pil_img target_size_bytes fmt (fsub scale_factor (fl (1 / 10)))
                    (Some buf))
      else
        (case img_byte_arr of
           None \<Rightarrow> Some (Inl (OtherError
                          ([CHR 0x27] @ ''NoneType'' @ [CHR 0x27] @ '' object has no attribute ''
                             @ [CHR 0x27] @ ''getvalue'' @ [CHR 0x27])))
         | Some buf \<Rightarrow> Some (Inr buf)))"

definition resize_and_compress_image ::
  "'img pil \<Rightarrow> 'img \<Rightarrow> int \<Rightarrow> string \<Rightarrow> (exn + byte list) option" where
  "resize_and_compress_image P pil_img target_size_bytes fmt =
     resize_loop P pil_img target_size_bytes fmt (fl (9 / 10)) None"

subsection \<open>Phase 1: \<open>compress_image_to_target_size\<close>\<close>

definition quality_buffer :: "'img pil \<Rightarrow> 'img \<Rightarrow> string \<Rightarrow> int \<Rightarrow> byte list" where
  "quality_buffer P pil_img fmt quality =
     (if is_jpeg fmt then save_jpeg P pil_img quality else save_png P pil_img)"

text \<open>The loop \<open>while quality >= min_quality\<close>, with \<open>min_quality = 10\<close>.\<close>

function quality_loop ::
  "'img pil \<Rightarrow> 'img \<Rightarrow> int \<Rightarrow> string \<Rightarrow> int \<Rightarrow> (exn + byte list) option" where
  "quality_loop P pil_img target_size_bytes fmt quality =
     (if 10 \<le> quality then
        (let buf = quality_buffer P pil_img fmt quality
         in if int (length buf) \<le> target_size_bytes then Some (Inr buf)
            else quality_loop P pil_img target_size_bytes fmt (quality - 5))
      else resize_and_compress_image P pil_img target_size_bytes fmt)"
  by pat_completeness auto
termination
  by (relation "measure (\<lambda>(P, pil_img, target_size_bytes, fmt, quality). nat (quality - 4))") auto

declare quality_loop.simps [simp del]

definition rgb_for_jpeg :: "'img pil \<Rightarrow> 'img \<Rightarrow> string \<Rightarrow> 'img" where
  "rgb_for_jpeg P pil_img fmt =
     (if is_jpeg fmt \<and> im_mode P pil_img \<in> set [''RGBA'', ''P''] then im_convert_rgb P pil_img
      else pil_img)"

definition compress_image_to_target_size ::
  "'img pil \<Rightarrow> 'img \<Rightarrow> int \<Rightarrow> string \<Rightarrow> (exn + byte list) option" where
  "compress_image_to_target_size P pil_img target_size_mb fmt =
     (let target_size_bytes = target_size_mb * 1024 * 1024
      in quality_loop P (rgb_for_jpeg P pil_img fmt) target_size_bytes fmt 95)"

section \<open>The tool layer (server.py): live view\<close>

text \<open>
  The tool answers with an image or with an error envelope. It has two handlers: the
  transport's exceptions, and every other exception.
\<close>

datatype tool_answer = Image "byte list" string | Envelope json

fun liveview_handler :: "exn \<Rightarrow> json" where
  "liveview_handler (RequestException m) =
     error_envelope ''camera_communication_error'' (''Failed to communicate with camera: '' @ m)"
| "liveview_handler e = error_envelope ''internal_error'' (''Unexpected error: '' @ exn_str e)"

text \<open>What the tool does with the decoded bytes: open them, compress to one megabyte, wrap.\<close>

definition deliver_frame :: "'img pil \<Rightarrow> byte list \<Rightarrow> tool_answer option" where
  "deliver_frame P image_data_bytes =
     (case im_open P image_data_bytes of
        Inl m \<Rightarrow> Some (Envelope (liveview_handler (OtherError m)))
      | Inr pil_img \<Rightarrow>
          (case compress_image_to_target_size P pil_img 1 ''JPEG'' of
             None \<Rightarrow> None
           | Some (Inl e) \<Rightarrow> Some (Envelope (liveview_handler e))
           | Some (Inr compressed_img_bytes) \<Rightarrow> Some (Image compressed_img_bytes ''jpeg'')))"

definition get_liveview :: "'c network \<Rightarrow> CanonCamera \<Rightarrow> 'img pil \<Rightarrow> 'c world \<Rightarrow> tool_answer option \<times> 'c world" where
  "get_liveview net camera P w =
     (case get_liveview_image net camera w of
        (Inl e, w') \<Rightarrow> (Some (Envelope (liveview_handler e)), w')
      | (Inr image_data_b64, w') \<Rightarrow>
          (case b64decode image_data_b64 of
             Inl e \<Rightarrow> (Some (Envelope (liveview_handler e)), w')
           | Inr image_data_bytes \<Rightarrow> (deliver_frame P image_data_bytes, w')))"

section \<open>Vocabulary for the statements\<close>

text \<open>The requests the settings operations issue, and the statuses the status check lets through.\<close>

definition all_settings_request :: "CanonCamera \<Rightarrow> request" where
  "all_settings_request self =
     \<lparr>meth = GET, url = base_url self @ ''/ccapi/ver100/shooting/settings'', body = None,
      timeout = Some 10\<rparr>"

definition setting_get_request :: "CanonCamera \<Rightarrow> string \<Rightarrow> request" where
  "setting_get_request self setting_name =
     \<lparr>meth = GET, url = base_url self @ setting_path setting_name, body = None,
      timeout = Some 10\<rparr>"

definition setting_put_request :: "CanonCamera \<Rightarrow> string \<Rightarrow> string \<Rightarrow> request" where
  "setting_put_request self setting_name v =
     \<lparr>meth = PUT, url = base_url self @ setting_path setting_name,
      body = Some (JObj [(''value'', JStr v)]), timeout = Some 10\<rparr>"

definition status_ok :: "response \<Rightarrow> bool" where
  "status_ok r = (status_code r < 400 \<or> 600 \<le> status_code r)"

text \<open>The update record \<open>set_setting\<close> returns.\<close>

definition update_result :: "string \<Rightarrow> json \<Rightarrow> string \<Rightarrow> json" where
  "update_result setting_name prev v =
     JObj [(''setting'', JStr setting_name), (''previous_value'', prev),
           (''new_value'', JStr v), (''success'', JBool True)]"

text \<open>The \<open>error\<close> field of a tool's answer, when it has one.\<close>

fun error_kind :: "json \<Rightarrow> json option" where
  "error_kind (JObj kvs) = map_of kvs ''error''"
| "error_kind v = None"

text \<open>
  The entries of a document under the keys of the fixed list that the document has, in the
  order of the list.
\<close>

definition projection :: "(string \<times> json) list \<Rightarrow> (string \<times> json) list" where
  "projection d =
     map (\<lambda>k. (k, the (map_of d k))) (filter (\<lambda>k. k \<in> fst ` set d) keys_to_keep)"


text \<open>The requests of the live-view operations.\<close>

definition liveview_request :: "CanonCamera \<Rightarrow> request" where
  "liveview_request self =
     \<lparr>meth = GET, url = base_url self @ ''/ccapi/ver100/shooting/liveview/flip'', body = None,
      timeout = Some 15\<rparr>"

definition init_live_view_request :: "CanonCamera \<Rightarrow> string \<Rightarrow> string \<Rightarrow> request" where
  "init_live_view_request self liveviewsize cameradisplay =
     \<lparr>meth = POST, url = base_url self @ ''/ccapi/ver100/shooting/liveview/'',
      body = Some (JObj [(''liveviewsize'', JStr liveviewsize),
                         (''cameradisplay'', JStr cameradisplay)]),
      timeout = None\<rparr>"

text \<open>A buffer is within a budget of bytes.\<close>

definition fits :: "int \<Rightarrow> byte list \<Rightarrow> bool" where
  "fits target_size_bytes buf = (int (length buf) \<le> target_size_bytes)"

text \<open>The qualities from 95 down to 10 in steps of 5.\<close>

definition qualities :: "int list" where
  "qualities = [95, 90, 85, 80, 75, 70, 65, 60, 55, 50, 45, 40, 35, 30, 25, 20, 15, 10]"

text \<open>
  The nine floats that counting down from \<open>0.9\<close> by \<open>0.1\<close> passes through while above
  \<open>0.1\<close>, as exact fractions. Python prints them as 0.9, 0.8, 0.7000000000000001,
  0.6000000000000001, 0.5000000000000001, 0.40000000000000013, 0.30000000000000016,
  0.20000000000000015 and 0.10000000000000014.
\<close>

definition scale_steps :: "rat list" where
  "scale_steps =
     [8106479329266893 / 9007199254740992,
      3602879701896397 / 4503599627370496,
      6305039478318695 / 9007199254740992,
      1351079888211149 / 2251799813685248,
      4503599627370497 / 9007199254740992,
      1801439850948199 / 4503599627370496,
      2702159776422299 / 9007199254740992,
      7205759403792799 / 36028797018963968,
      1801439850948201 / 18014398509481984]"

definition tenths :: "rat list" where
  "tenths = [9 / 10, 8 / 10, 7 / 10, 6 / 10, 5 / 10, 4 / 10, 3 / 10, 2 / 10, 1 / 10]"

text \<open>The qualities the loop passes through in \<open>n\<close> rounds from \<open>q\<close>.\<close>

fun qualities_from :: "nat \<Rightarrow> int \<Rightarrow> int list" where
  "qualities_from 0 q = []"
| "qualities_from (Suc n) q = q # qualities_from n (q - 5)"

text \<open>
  The outcome of trying a list of passes in order against a budget, given the buffer of the
  pass before: a pass that raised ends the search with its exception, a buffer that fits ends
  it with that buffer, and when the list is used up the buffer of the last pass is the result.
\<close>

fun search_passes :: "int \<Rightarrow> (exn + byte list) list \<Rightarrow> byte list option \<Rightarrow> exn + byte list" where
  "search_passes t [] None =
     Inl (OtherError ([CHR 0x27] @ ''NoneType'' @ [CHR 0x27] @ '' object has no attribute ''
            @ [CHR 0x27] @ ''getvalue'' @ [CHR 0x27]))"
| "search_passes t [] (Some b) = Inr b"
| "search_passes t (Inl e # rest) prev = Inl e"
| "search_passes t (Inr b # rest) prev =
     (if fits t b then Inr b else search_passes t rest (Some b))"

section \<open>Stubs for concrete runs\<close>

subsection \<open>A stub camera\<close>

text \<open>
  A camera for concrete runs: its state counts the writes it has accepted. It reports the
  aperture with its options, the shutter speed without options, a settings document with
  one key the tool layer does not know, and a live-view frame of five bytes.
\<close>

definition stub_ok :: "json \<Rightarrow> response" where
  "stub_ok j = \<lparr>status_code = 200, reason = ''OK'', content = [], json_body = Inr j\<rparr>"

definition stub_av :: "(string \<times> json) list" where
  "stub_av = [(''value'', JStr ''5.6''),
              (''ability'', JArr [JStr ''4.0'', JStr ''5.6'', JStr ''8.0''])]"

definition stub_tv :: "(string \<times> json) list" where
  "stub_tv = [(''value'', JStr ''1/125'')]"

definition stub_document :: "(string \<times> json) list" where
  "stub_document = [(''extra_field'', JObj []), (''av'', JObj stub_av)]"

definition stub_camera :: CanonCamera where
  "stub_camera = \<lparr>ip = Some ''cam'', port = 8080, base_url = ''http://cam:8080''\<rparr>"

definition stub_net :: "nat network" where
  "stub_net c rq =
     (if meth rq = PUT then (Reply (stub_ok (JObj [])), Suc c)
      else if url rq = ''http://cam:8080/ccapi/ver100/shooting/settings''
        then (Reply (stub_ok (JObj stub_document)), c)
      else if url rq = ''http://cam:8080/ccapi/ver100/shooting/settings/av''
        then (Reply (stub_ok (JObj stub_av)), c)
      else if url rq = ''http://cam:8080/ccapi/ver100/shooting/settings/tv''
        then (Reply (stub_ok (JObj stub_tv)), c)
      else if url rq = ''http://cam:8080/ccapi/ver100/shooting/liveview/flip''
        then (Reply \<lparr>status_code = 200, reason = ''OK'', content = [255, 216, 255, 224, 7],
                     json_body = Inl ''Expecting value: line 1 column 1 (char 0)''\<rparr>, c)
      else (NoReply ''Connection refused'', c))"

definition stub_world :: "nat world" where
  "stub_world = \<lparr>camera_state = 0, sent = []\<rparr>"


subsection \<open>A stub imaging library\<close>

text \<open>
  An image is its width and height. A JPEG of it has 200 bytes per pixel and unit of quality,
  a PNG has three bytes per pixel; only the lengths of the buffers matter. Resizing refuses a
  size with a side below one pixel, with Pillow's exception and text.
\<close>

definition zeros :: "nat \<Rightarrow> byte list" where
  "zeros n = replicate n 0"

definition stub_pil :: "(nat \<times> nat) pil" where
  "stub_pil =
     \<lparr>im_open = (\<lambda>bs. if bs = [] then Inl ''cannot identify image file'' else Inr (30, 30)),
      im_mode = (\<lambda>img. ''RGB''),
      im_size = (\<lambda>img. img),
      im_convert_rgb = (\<lambda>img. img),
      im_resize = (\<lambda>img (w, h).
                     if w < 1 \<or> h < 1 then Inl (ValueError ''height and width must be > 0'')
                     else Inr (nat w, nat h)),
      save_jpeg = (\<lambda>(w, h) q. zeros (w * h * nat q * 200)),
      save_png = (\<lambda>(w, h). zeros (w * h * 3))\<rparr>"

section \<open>Properties of the settings operations\<close>

subsection \<open>Auxiliary facts\<close>

lemma requests_call_reply:
  "net (camera_state w) rq = (Reply r, c') \<Longrightarrow>
   requests_call net rq w = (Inr r, \<lparr>camera_state = c', sent = sent w @ [rq]\<rparr>)"
  by (simp add: requests_call_def)

lemma requests_call_noreply:
  "net (camera_state w) rq = (NoReply m, c') \<Longrightarrow>
   requests_call net rq w = (Inl (RequestException m), \<lparr>camera_state = c', sent = sent w @ [rq]\<rparr>)"
  by (simp add: requests_call_def)

lemma raise_for_status_ok: "status_ok r \<Longrightarrow> raise_for_status u r = Inr ()"
  by (auto simp: raise_for_status_def status_ok_def)

lemma raise_for_status_not_ValueError: "raise_for_status u r \<noteq> Inl (ValueError m)"
  by (simp add: raise_for_status_def)

lemma get_setting_ok:
  assumes "net (camera_state w) (setting_get_request self n) = (Reply r, c1)"
    and "status_ok r" and "json_body r = Inr j"
  shows "get_setting net self n w =
           (Inr j, \<lparr>camera_state = c1, sent = sent w @ [setting_get_request self n]\<rparr>)"
  using assms
  by (simp add: get_setting_def camera_get_def setting_get_request_def requests_call_reply
      raise_for_status_ok response_json_def)

lemma get_all_settings_ok:
  assumes "net (camera_state w) (all_settings_request self) = (Reply r, c1)"
    and "status_ok r" and "json_body r = Inr j"
  shows "get_all_settings net self w =
           (Inr j, \<lparr>camera_state = c1, sent = sent w @ [all_settings_request self]\<rparr>)"
  using assms
  by (simp add: get_all_settings_def camera_get_def all_settings_request_def requests_call_reply
      raise_for_status_ok response_json_def)

lemma camera_put_setting:
  "camera_put net self (setting_path n) (JObj [(''value'', JStr v)]) w =
     (case net (camera_state w) (setting_put_request self n v) of
        (NoReply m, c2) \<Rightarrow>
          (Inl (RequestException m),
           \<lparr>camera_state = c2, sent = sent w @ [setting_put_request self n v]\<rparr>)
      | (Reply r, c2) \<Rightarrow>
          (case raise_for_status (base_url self @ setting_path n) r of
             Inl e \<Rightarrow> (Inl e, \<lparr>camera_state = c2, sent = sent w @ [setting_put_request self n v]\<rparr>)
           | Inr _ \<Rightarrow> (Inr r, \<lparr>camera_state = c2, sent = sent w @ [setting_put_request self n v]\<rparr>)))"
  by (simp add: camera_put_def setting_put_request_def requests_call_def
      split: prod.splits reply.splits sum.splits)

lemma camera_get_sent:
  "sent (snd (camera_get net self path w)) =
     sent w @ [\<lparr>meth = GET, url = base_url self @ path, body = None, timeout = Some 10\<rparr>]"
  by (simp add: camera_get_def requests_call_def Let_def
      split: prod.splits sum.splits reply.splits)

lemma get_setting_sent:
  "sent (snd (get_setting net self n w)) = sent w @ [setting_get_request self n]"
  using camera_get_sent [of net self "setting_path n" w]
  by (auto simp: get_setting_def setting_get_request_def split: prod.splits sum.splits)

lemma value_rejected_list:
  "map_of d ''ability'' = Some (JArr ab) \<Longrightarrow>
   value_rejected (JObj d) v = Inr (JStr v \<notin> set ab)"
  by (auto simp: value_rejected_def  dest: map_of_SomeD intro: rev_image_eqI split: bool.splits)

lemma value_rejected_absent:
  "''ability'' \<notin> fst ` set d \<Longrightarrow> value_rejected (JObj d) v = Inr False"
  by (auto simp: value_rejected_def)




lemma set_setting_written:
  assumes "net (camera_state w) (setting_get_request self n) = (Reply r, c1)"
    and "status_ok r" and "json_body r = Inr (JObj d)"
    and "value_rejected (JObj d) v = Inr False"
  shows "set_setting net self n v w =
     (case net c1 (setting_put_request self n v) of
        (NoReply m, c2) \<Rightarrow>
          (Inl (RequestException m),
           \<lparr>camera_state = c2,
            sent = sent w @ [setting_get_request self n, setting_put_request self n v]\<rparr>)
      | (Reply r2, c2) \<Rightarrow>
          (case raise_for_status (base_url self @ setting_path n) r2 of
             Inl e \<Rightarrow> Inl e
           | Inr _ \<Rightarrow>
               Inr (update_result n (case map_of d ''value'' of Some x \<Rightarrow> x | None \<Rightarrow> JNull) v),
           \<lparr>camera_state = c2,
            sent = sent w @ [setting_get_request self n, setting_put_request self n v]\<rparr>))"
  using assms
  by (simp add: set_setting_def get_setting_ok camera_put_setting update_result_def
      split: prod.splits reply.splits sum.splits option.splits)

lemma project_keys_dict:
  "project_keys (JObj d) ks =
     Inr (map (\<lambda>k. (k, the (map_of d k))) (filter (\<lambda>k. k \<in> fst ` set d) ks))"
proof (induction ks)
  case Nil
  then show ?case by simp
next
  case (Cons k ks)
  show ?case
  proof (cases "map_of d k")
    case None
    then have "k \<notin> fst ` set d" by (simp add: map_of_eq_None_iff)
    with Cons show ?thesis by simp
  next
    case (Some v)
    then have "k \<in> fst ` set d" by (metis map_of_eq_None_iff option.distinct(1))
    with Some Cons show ?thesis by simp
  qed
qed

lemma map_fst_projection:
  "map fst (map (\<lambda>k. (k, the (map_of d k))) (filter (\<lambda>k. k \<in> fst ` set d) ks))
     = filter (\<lambda>k. k \<in> fst ` set d) ks"
  by (induction ks) simp_all

lemma map_of_projection:
  "map_of (map (\<lambda>k. (k, the (map_of d k))) (filter (\<lambda>k. k \<in> fst ` set d) ks)) k
     = (if k \<in> set ks then map_of d k else None)"
proof (induction ks)
  case Nil
  then show ?case by simp
next
  case (Cons a ks)
  show ?case
  proof (cases "map_of d a")
    case None
    then have "a \<notin> fst ` set d" by (simp add: map_of_eq_None_iff)
    with None Cons show ?thesis by auto
  next
    case (Some v)
    then have "a \<in> fst ` set d" by (metis map_of_eq_None_iff option.distinct(1))
    with Some Cons show ?thesis by auto
  qed
qed

lemma stub_get_av:
  "stub_net (camera_state stub_world) (setting_get_request stub_camera ''av'')
     = (Reply (stub_ok (JObj stub_av)), 0)"
  by (simp add: stub_net_def stub_world_def setting_get_request_def stub_camera_def
      setting_path_def)

lemma stub_put_av:
  "stub_net 0 (setting_put_request stub_camera ''av'' ''8.0'') = (Reply (stub_ok (JObj [])), 1)"
  by (simp add: stub_net_def setting_put_request_def)

lemma stub_get_tv:
  "stub_net (camera_state stub_world) (setting_get_request stub_camera ''tv'')
     = (Reply (stub_ok (JObj stub_tv)), 0)"
  by (simp add: stub_net_def stub_world_def setting_get_request_def stub_camera_def
      setting_path_def)

lemma stub_get_all:
  "stub_net (camera_state stub_world) (all_settings_request stub_camera)
     = (Reply (stub_ok (JObj stub_document)), 0)"
  by (simp add: stub_net_def stub_world_def all_settings_request_def stub_camera_def)

subsection \<open>Validated writes\<close>



text \<open>
  Claim C2. Let the fetch succeed with a record whose \<open>ability\<close> is a list that has the
  value, and let the camera answer the write with a status that passes the status check. Then
  \<open>set_setting\<close> returns the record with the setting's name, the fetched record's \<open>value\<close>
  (\<open>None\<close> when it has none) as \<open>previous_value\<close>, the requested value as \<open>new_value\<close> and
  \<open>success: True\<close>; it issues the \<open>GET\<close> and then the \<open>PUT\<close>, so exactly one write.
\<close>

theorem set_setting_writes_once_on_listed_value:
  assumes "net (camera_state w) (setting_get_request camera setting) = (Reply r, c1)"
    and "status_ok r" and "json_body r = Inr (JObj d)"
    and "map_of d ''ability'' = Some (JArr ab)" and "JStr v \<in> set ab"
    and "net c1 (setting_put_request camera setting v) = (Reply r2, c2)" and "status_ok r2"
  shows "set_setting net camera setting v w =
           (Inr (update_result setting
                   (case map_of d ''value'' of Some x \<Rightarrow> x | None \<Rightarrow> JNull) v),
            \<lparr>camera_state = c2,
             sent = sent w @ [setting_get_request camera setting,
                              setting_put_request camera setting v]\<rparr>)
       \<and> filter (\<lambda>rq. meth rq = PUT)
            [setting_get_request camera setting, setting_put_request camera setting v]
           = [setting_put_request camera setting v]"
proof -
  have "value_rejected (JObj d) v = Inr False"
    using assms(4,5) by (simp add: value_rejected_list)
  from set_setting_written [where net = net and w = w, OF assms(1-3) this]
  have "set_setting net camera setting v w =
           (Inr (update_result setting
                   (case map_of d ''value'' of Some x \<Rightarrow> x | None \<Rightarrow> JNull) v),
            \<lparr>camera_state = c2,
             sent = sent w @ [setting_get_request camera setting,
                              setting_put_request camera setting v]\<rparr>)"
    using assms(6,7) by (simp add: raise_for_status_ok)
  moreover have "filter (\<lambda>rq. meth rq = PUT)
            [setting_get_request camera setting, setting_put_request camera setting v]
           = [setting_put_request camera setting v]"
    by (simp add: setting_get_request_def setting_put_request_def)
  ultimately show ?thesis by blast
qed

theorem set_setting_writes_once_on_listed_value_witness:
  "set_setting stub_net stub_camera ''av'' ''8.0'' stub_world =
     (Inr (update_result ''av'' (JStr ''5.6'') ''8.0''),
      \<lparr>camera_state = 1,
       sent = sent stub_world @ [setting_get_request stub_camera ''av'',
                                 setting_put_request stub_camera ''av'' ''8.0'']\<rparr>)"
proof -
  have h2: "status_ok (stub_ok (JObj stub_av))" by (simp add: status_ok_def stub_ok_def)
  have h3: "json_body (stub_ok (JObj stub_av)) = Inr (JObj stub_av)" by (simp add: stub_ok_def)
  have h4: "map_of stub_av ''ability'' = Some (JArr [JStr ''4.0'', JStr ''5.6'', JStr ''8.0''])"
    by (simp add: stub_av_def)
  have h5: "JStr ''8.0'' \<in> set [JStr ''4.0'', JStr ''5.6'', JStr ''8.0'']" by simp
  have h7: "status_ok (stub_ok (JObj []))" by (simp add: status_ok_def stub_ok_def)
  have v: "(case map_of stub_av ''value'' of Some x \<Rightarrow> x | None \<Rightarrow> JNull) = JStr ''5.6''"
    by (simp add: stub_av_def)
  from set_setting_writes_once_on_listed_value
    [where net = stub_net and w = stub_world, OF stub_get_av h2 h3 h4 h5 stub_put_av h7]
  show ?thesis by (simp add: v)
qed

text \<open>
  Claim C3. Let the fetch succeed with a record that has no \<open>ability\<close> key. Then for every
  value \<open>set_setting\<close> goes on to the write: the \<open>PUT\<close> follows the \<open>GET\<close>, the result is
  read off the camera's reply to the \<open>PUT\<close> alone (an exception of the transport when the
  camera does not answer or answers 4xx or 5xx, the update record otherwise), and it is never a
  \<open>ValueError\<close>.
\<close>

theorem set_setting_without_ability_defers_to_camera:
  assumes "net (camera_state w) (setting_get_request camera setting) = (Reply r, c1)"
    and "status_ok r" and "json_body r = Inr (JObj d)"
    and "''ability'' \<notin> fst ` set d"
  shows "set_setting net camera setting v w =
     (case net c1 (setting_put_request camera setting v) of
        (NoReply m, c2) \<Rightarrow>
          (Inl (RequestException m),
           \<lparr>camera_state = c2,
            sent = sent w @ [setting_get_request camera setting,
                             setting_put_request camera setting v]\<rparr>)
      | (Reply r2, c2) \<Rightarrow>
          (case raise_for_status (base_url camera @ setting_path setting) r2 of
             Inl e \<Rightarrow> Inl e
           | Inr _ \<Rightarrow>
               Inr (update_result setting
                      (case map_of d ''value'' of Some x \<Rightarrow> x | None \<Rightarrow> JNull) v),
           \<lparr>camera_state = c2,
            sent = sent w @ [setting_get_request camera setting,
                             setting_put_request camera setting v]\<rparr>))
   \<and> (\<forall>m. fst (set_setting net camera setting v w) \<noteq> Inl (ValueError m))
   \<and> sent (snd (set_setting net camera setting v w)) =
       sent w @ [setting_get_request camera setting, setting_put_request camera setting v]"
proof -
  have "value_rejected (JObj d) v = Inr False"
    using assms(4) by (rule value_rejected_absent)
  note eq = set_setting_written [where net = net and w = w, OF assms(1-3) this]
  have a: "\<forall>m. fst (set_setting net camera setting v w) \<noteq> Inl (ValueError m)"
    unfolding eq using raise_for_status_not_ValueError
    by (auto split: prod.splits reply.splits sum.splits)
  have b: "sent (snd (set_setting net camera setting v w)) =
       sent w @ [setting_get_request camera setting, setting_put_request camera setting v]"
    unfolding eq by (simp split: prod.splits reply.splits)
  from eq a b show ?thesis by blast
qed

theorem set_setting_without_ability_defers_to_camera_witness:
  "set_setting stub_net stub_camera ''tv'' ''anything'' stub_world =
     (Inr (update_result ''tv'' (JStr ''1/125'') ''anything''),
      \<lparr>camera_state = 1,
       sent = sent stub_world @ [setting_get_request stub_camera ''tv'',
                                 setting_put_request stub_camera ''tv'' ''anything'']\<rparr>)"
proof -
  have h2: "status_ok (stub_ok (JObj stub_tv))" by (simp add: status_ok_def stub_ok_def)
  have h3: "json_body (stub_ok (JObj stub_tv)) = Inr (JObj stub_tv)" by (simp add: stub_ok_def)
  have h4: "''ability'' \<notin> fst ` set stub_tv" by (simp add: stub_tv_def)
  have p: "stub_net 0 (setting_put_request stub_camera ''tv'' ''anything'')
             = (Reply (stub_ok (JObj [])), 1)"
    by (simp add: stub_net_def setting_put_request_def)
  have s: "raise_for_status u (stub_ok (JObj [])) = Inr ()" for u
    by (simp add: raise_for_status_def stub_ok_def)
  have v: "(case map_of stub_tv ''value'' of Some x \<Rightarrow> x | None \<Rightarrow> JNull) = JStr ''1/125''"
    by (simp add: stub_tv_def)
  from set_setting_without_ability_defers_to_camera
    [where net = stub_net and w = stub_world and v = "''anything''", OF stub_get_tv h2 h3 h4]
  show ?thesis by (simp add: p s v)
qed

subsection \<open>Parameters checked by the tool layer\<close>

text \<open>
  Claim C7. A name that is not in the read list (and is not the selector \<open>all\<close>, which asks
  for the whole document and names no setting) makes \<open>get_camera_settings\<close> answer
  \<open>invalid_parameter\<close>; a name that is not in the write list makes \<open>set_camera_setting\<close>
  answer \<open>invalid_parameter\<close>; and an empty value makes \<open>set_camera_setting\<close> answer
  \<open>invalid_parameter\<close> whatever the name. In all three cases the world is returned as it
  was: no request is issued. The \<open>error\<close> field of such an answer is \<open>invalid_parameter\<close>,
  not one of the other two kinds.
\<close>

theorem unknown_setting_name_is_invalid_parameter:
  "(setting \<noteq> ''all'' \<and> setting \<notin> set read_valid_settings \<longrightarrow>
      get_camera_settings net camera setting w =
        (error_envelope ''invalid_parameter''
           (invalid_setting_message setting read_valid_settings), w))
   \<and> (setting \<notin> set write_valid_settings \<longrightarrow>
      set_camera_setting net camera setting v w =
        (error_envelope ''invalid_parameter''
           (invalid_setting_message setting write_valid_settings), w))
   \<and> set_camera_setting net camera setting [] w =
        (error_envelope ''invalid_parameter''
           (if setting \<in> set write_valid_settings then ''Value is required''
            else invalid_setting_message setting write_valid_settings), w)
   \<and> error_kind (error_envelope ''invalid_parameter'' msg) = Some (JStr ''invalid_parameter'')"
  by (simp add: get_camera_settings_def set_camera_setting_def error_envelope_def)

theorem unknown_setting_name_is_invalid_parameter_witness:
  "get_camera_settings stub_net stub_camera ''focus'' stub_world =
     (error_envelope ''invalid_parameter''
        (invalid_setting_message ''focus'' read_valid_settings), stub_world)
   \<and> set_camera_setting stub_net stub_camera ''focus'' ''1'' stub_world =
     (error_envelope ''invalid_parameter''
        (invalid_setting_message ''focus'' write_valid_settings), stub_world)
   \<and> set_camera_setting stub_net stub_camera ''iso'' [] stub_world =
     (error_envelope ''invalid_parameter'' ''Value is required'', stub_world)"
  using unknown_setting_name_is_invalid_parameter
    [of "''focus''" stub_net stub_camera stub_world "''1''"]
    unknown_setting_name_is_invalid_parameter
    [of "''iso''" stub_net stub_camera stub_world "''1''"]
  by (simp add: read_valid_settings_def write_valid_settings_def)

text \<open>
  Claim C8. When the camera answers the request for all settings with a document (a dict),
  \<open>get_camera_settings("all")\<close> returns the entries of the document under the keys
  \<open>av\<close>, \<open>tv\<close>, \<open>iso\<close>, \<open>shootingmodedial\<close> that the document has, with the document's
  values: a key of the document outside the list is dropped, a key of the list that the
  document lacks is left out.
\<close>

theorem get_all_settings_projects_fixed_keys:
  assumes "net (camera_state w) (all_settings_request camera) = (Reply r, c1)"
    and "status_ok r" and "json_body r = Inr (JObj d)"
  shows "get_camera_settings net camera ''all'' w =
           (JObj (projection d),
            \<lparr>camera_state = c1, sent = sent w @ [all_settings_request camera]\<rparr>)
       \<and> map fst (projection d) = filter (\<lambda>k. k \<in> fst ` set d) keys_to_keep
       \<and> (\<forall>k. map_of (projection d) k = (if k \<in> set keys_to_keep then map_of d k else None))
       \<and> keys_to_keep = [''av'', ''tv'', ''iso'', ''shootingmodedial'']"
proof -
  have "get_camera_settings net camera ''all'' w =
           (JObj (projection d),
            \<lparr>camera_state = c1, sent = sent w @ [all_settings_request camera]\<rparr>)"
    using get_all_settings_ok [where net = net and w = w, OF assms]
    by (simp add: get_camera_settings_def project_keys_dict projection_def)
  then show ?thesis
    by (simp add: projection_def map_fst_projection map_of_projection) (simp add: keys_to_keep_def)
qed

theorem get_all_settings_projects_fixed_keys_witness:
  "get_camera_settings stub_net stub_camera ''all'' stub_world =
     (JObj [(''av'', JObj stub_av)],
      \<lparr>camera_state = 0, sent = sent stub_world @ [all_settings_request stub_camera]\<rparr>)"
proof -
  have h2: "status_ok (stub_ok (JObj stub_document))" by (simp add: status_ok_def stub_ok_def)
  have h3: "json_body (stub_ok (JObj stub_document)) = Inr (JObj stub_document)"
    by (simp add: stub_ok_def)
  have p: "projection stub_document = [(''av'', JObj stub_av)]"
    by (simp add: projection_def keys_to_keep_def stub_document_def)
  from get_all_settings_projects_fixed_keys
    [where net = stub_net and w = stub_world, OF stub_get_all h2 h3]
  show ?thesis by (simp add: p)
qed

text \<open>
  Claim C9. The write list is \<open>av\<close>, \<open>tv\<close>, \<open>iso\<close>: \<open>set_camera_setting\<close> answers
  \<open>invalid_parameter\<close> for \<open>shootingmodedial\<close> with every value, and returns the world as
  it was (no request). The read list has \<open>shootingmodedial\<close>: \<open>get_camera_settings\<close> passes
  the name on and issues the \<open>GET\<close> for it.
\<close>

theorem write_allow_list_excludes_mode_dial:
  "set_camera_setting net camera ''shootingmodedial'' v w =
     (error_envelope ''invalid_parameter''
        (invalid_setting_message ''shootingmodedial'' write_valid_settings), w)
   \<and> write_valid_settings = [''av'', ''tv'', ''iso'']
   \<and> ''shootingmodedial'' \<in> set read_valid_settings
   \<and> sent (snd (get_camera_settings net camera ''shootingmodedial'' w)) =
       sent w @ [setting_get_request camera ''shootingmodedial'']"
proof -
  have a: "set_camera_setting net camera ''shootingmodedial'' v w =
     (error_envelope ''invalid_parameter''
        (invalid_setting_message ''shootingmodedial'' write_valid_settings), w)"
    by (simp add: set_camera_setting_def write_valid_settings_def)
  have b: "sent (snd (get_camera_settings net camera ''shootingmodedial'' w)) =
       sent w @ [setting_get_request camera ''shootingmodedial'']"
    using get_setting_sent [of net camera "''shootingmodedial''" w]
    by (auto simp: get_camera_settings_def read_valid_settings_def
        split: prod.splits sum.splits)
  from a b show ?thesis
    by (simp add: write_valid_settings_def read_valid_settings_def)
qed

section \<open>Properties of the live-view operations\<close>

subsection \<open>Auxiliary facts about the base64 tables and the bits of a byte\<close>

lemma distinct_table: "distinct table_b2a_base64"
  by (simp add: table_b2a_base64_def b64_alphabet_def byte_of_char_def)

lemma length_table: "length table_b2a_base64 = 64"
  by (simp add: table_b2a_base64_def b64_alphabet_def)

lemma index_of_nth: "distinct xs \<Longrightarrow> i < length xs \<Longrightarrow> index_of (xs ! i) xs = Some i"
proof (induction xs arbitrary: i)
  case Nil
  then show ?case by simp
next
  case (Cons a xs)
  then show ?case by (cases i) auto
qed

lemma index_of_None: "x \<notin> set xs \<Longrightarrow> index_of x xs = None"
  by (induction xs) auto

lemma a2b_b2a: "s < 64 \<Longrightarrow> table_a2b_base64 (b2a s) = Some s"
proof -
  assume "s < 64"
  then have "unat s < 64" by (simp add: word_less_nat_alt)
  then show ?thesis
    by (simp add: table_a2b_base64_def b2a_def index_of_nth distinct_table length_table)
qed

lemma table_ascii: "\<forall>x \<in> set table_b2a_base64. x < 128 \<and> x \<noteq> BASE64_PAD"
  by (simp add: table_b2a_base64_def b64_alphabet_def byte_of_char_def BASE64_PAD_def)

lemma b2a_in_table: "s < 64 \<Longrightarrow> b2a s \<in> set table_b2a_base64"
  by (simp add: b2a_def length_table word_less_nat_alt)

lemma newline_not_in_table: "table_a2b_base64 10 = None"
  by (rule trans[OF table_a2b_base64_def]) (simp add: index_of_None table_b2a_base64_def b64_alphabet_def byte_of_char_def)

lemma byte_masks: "(3::byte) = mask 2" "(15::byte) = mask 4" "(63::byte) = mask 6"
  by (simp_all add: mask_eq_exp_minus_1)

lemma byte_eqI:
  fixes x y :: byte
  assumes "bit x 0 = bit y 0" "bit x 1 = bit y 1" "bit x 2 = bit y 2" "bit x 3 = bit y 3"
    "bit x 4 = bit y 4" "bit x 5 = bit y 5" "bit x 6 = bit y 6" "bit x 7 = bit y 7"
  shows "x = y"
proof (rule bit_word_eqI)
  fix n assume "n < LENGTH(8)"
  then have "n \<in> {0, 1, 2, 3, 4, 5, 6, 7}" by auto
  with assms show "bit x n = bit y n" by auto
qed

lemma first_byte: fixes a b :: byte
  shows "push_bit 2 (drop_bit 2 a) OR drop_bit 4 (push_bit 4 (a AND 3) OR drop_bit 4 b) = a"
  by (rule byte_eqI) (simp_all add: bit_simps byte_masks)

lemma second_byte: fixes a b c :: byte
  shows "push_bit 4 ((push_bit 4 (a AND 3) OR drop_bit 4 b) AND 15)
           OR drop_bit 2 (push_bit 2 (b AND 15) OR drop_bit 6 c) = b"
  by (rule byte_eqI) (simp_all add: bit_simps byte_masks)

lemma third_byte: fixes b c :: byte
  shows "push_bit 6 ((push_bit 2 (b AND 15) OR drop_bit 6 c) AND 3) OR (c AND 63) = c"
  by (rule byte_eqI) (simp_all add: bit_simps byte_masks)

lemma below_64: fixes x :: byte shows "x AND 63 = x \<Longrightarrow> x < 64"
proof -
  assume "x AND 63 = x"
  then have "x = x AND mask 6" by (simp add: byte_masks)
  also have "\<dots> < 2 ^ 6" by (rule and_mask_less') simp
  finally show ?thesis by simp
qed

lemma byte_no_high_bits: fixes a :: byte shows "\<not> bit a 8" "\<not> bit a 9" "\<not> bit a 10" "\<not> bit a 11" "\<not> bit a 12" "\<not> bit a 13"
  using bit_imp_le_length [of a] by fastforce+

lemma sextet_bounds:
  fixes a b c :: byte
  shows "drop_bit 2 a < 64" "push_bit 4 (a AND 3) OR drop_bit 4 b < 64"
    "push_bit 2 (b AND 15) OR drop_bit 6 c < 64" "c AND 63 < 64"
    "push_bit 4 (a AND 3) < 64" "push_bit 2 (b AND 15) < 64"
proof -
  show "drop_bit 2 a < 64"
    by (rule below_64, rule byte_eqI) (simp_all add: bit_simps byte_masks byte_no_high_bits)
  show "push_bit 4 (a AND 3) OR drop_bit 4 b < 64"
    by (rule below_64, rule byte_eqI) (simp_all add: bit_simps byte_masks byte_no_high_bits)
  show "push_bit 2 (b AND 15) OR drop_bit 6 c < 64"
    by (rule below_64, rule byte_eqI) (simp_all add: bit_simps byte_masks byte_no_high_bits)
  show "c AND 63 < 64"
    by (rule below_64, rule byte_eqI) (simp_all add: bit_simps byte_masks byte_no_high_bits)
  show "push_bit 4 (a AND 3) < 64"
    by (rule below_64, rule byte_eqI) (simp_all add: bit_simps byte_masks byte_no_high_bits)
  show "push_bit 2 (b AND 15) < 64"
    by (rule below_64, rule byte_eqI) (simp_all add: bit_simps byte_masks byte_no_high_bits)
qed

lemma b2a_props:
  assumes "s < 64"
  shows "table_a2b_base64 (b2a s) = Some s" "b2a s \<noteq> BASE64_PAD" "b2a s < 128"
  using assms a2b_b2a b2a_in_table table_ascii by blast+

lemma a2b_quad:
  assumes "s1 < 64" "s2 < 64" "s3 < 64" "s4 < 64"
  shows "a2b_base64 (b2a s1 # b2a s2 # b2a s3 # b2a s4 # rest) 0 lc p bin =
         a2b_base64 rest 0 0 0
           (bin @ [push_bit 2 s1 OR drop_bit 4 s2,
                   push_bit 4 (s2 AND 15) OR drop_bit 2 s3,
                   push_bit 6 (s3 AND 3) OR s4])"
  using assms by (simp add: b2a_props)

lemma a2b_triple_pad:
  assumes "s1 < 64" "s2 < 64" "s3 < 64"
  shows "a2b_base64 (b2a s1 # b2a s2 # b2a s3 # BASE64_PAD # rest) 0 lc p bin =
         Inr (bin @ [push_bit 2 s1 OR drop_bit 4 s2,
                     push_bit 4 (s2 AND 15) OR drop_bit 2 s3])"
  using assms by (simp add: b2a_props)

lemma a2b_pair_pad:
  assumes "s1 < 64" "s2 < 64"
  shows "a2b_base64 (b2a s1 # b2a s2 # BASE64_PAD # BASE64_PAD # rest) 0 lc p bin =
         Inr (bin @ [push_bit 2 s1 OR drop_bit 4 s2])"
  using assms by (simp add: b2a_props)

lemma a2b_newline: "a2b_base64 [10] 0 lc p bin = Inr bin"
  by (simp add: newline_not_in_table BASE64_PAD_def)

lemma first_byte_of_one: fixes a :: byte
  shows "push_bit 2 (drop_bit 2 a) OR drop_bit 4 (push_bit 4 (a AND 3)) = a"
  by (rule byte_eqI) (simp_all add: bit_simps byte_masks)

lemma second_byte_of_two: fixes a b :: byte
  shows "push_bit 4 ((push_bit 4 (a AND 3) OR drop_bit 4 b) AND 15)
           OR drop_bit 2 (push_bit 2 (b AND 15)) = b"
  by (rule byte_eqI) (simp_all add: bit_simps byte_masks)

lemma a2b_b2a_base64:
  "a2b_base64 (b2a_base64 bs @ [10]) 0 lc p bin = Inr (bin @ bs)"
proof (induction bs arbitrary: lc p bin rule: b2a_base64.induct)
  case (1 a b c rest)
  show ?case
    by (simp only: b2a_base64.simps append_Cons append_Nil a2b_quad [OF sextet_bounds(1-4)] first_byte second_byte third_byte 1
        append_assoc)
next
  case (2 a b)
  show ?case
    by (simp only: b2a_base64.simps append_Cons append_Nil a2b_triple_pad [OF sextet_bounds(1,2,6)] first_byte second_byte_of_two)
next
  case (3 a)
  show ?case
    by (simp only: b2a_base64.simps append_Cons append_Nil a2b_pair_pad [OF sextet_bounds(1,5)] first_byte_of_one)
next
  case 4
  show ?case by (simp only: b2a_base64.simps append_Nil append_Nil2 a2b_newline)
qed

lemma b2a_base64_ascii: "\<forall>x \<in> set (b2a_base64 bs). x < 128"
proof (induction bs rule: b2a_base64.induct)
  case (1 a b c rest)
  with b2a_props(3) [OF sextet_bounds(1)] b2a_props(3) [OF sextet_bounds(2)] b2a_props(3) [OF sextet_bounds(3)]
    b2a_props(3) [OF sextet_bounds(4)]
  show ?case by (simp only: b2a_base64.simps set_append set_simps ball_Un ball_simps)
next
  case (2 a b)
  with b2a_props(3) [OF sextet_bounds(1)] b2a_props(3) [OF sextet_bounds(2)] b2a_props(3) [OF sextet_bounds(6)]
  show ?case by (simp only: b2a_base64.simps set_simps ball_simps BASE64_PAD_def) simp
next
  case (3 a)
  with b2a_props(3) [OF sextet_bounds(1)] b2a_props(3) [OF sextet_bounds(5)]
  show ?case by (simp only: b2a_base64.simps set_simps ball_simps BASE64_PAD_def) simp
next
  case 4
  show ?case by simp
qed

lemma byte_of_char_of_byte: "byte_of_char (char_of_byte b) = b"
proof -
  have "unat b < 256" using unsigned_less [of b] by simp
  then show ?thesis by (simp add: byte_of_char_def char_of_byte_def)
qed

lemma of_char_of_byte: "b < 128 \<Longrightarrow> of_char (char_of_byte b) < (128::nat)"
  by (simp add: char_of_byte_def word_less_nat_alt take_bit_eq_mod)

lemma liveview_text_ascii: "list_all (\<lambda>c. of_char c < (128::nat)) (liveview_text bs)"
  using b2a_base64_ascii [of bs]
  by (auto simp: liveview_text_def b64encode_def of_char_of_byte list_all_iff)

lemma liveview_text_bytes: "map byte_of_char (liveview_text bs) = b2a_base64 bs @ [10]"
  by (simp add: liveview_text_def b64encode_def byte_of_char_of_byte comp_def)
     (simp add: byte_of_char_def)

lemma b64decode_liveview_text: "b64decode (liveview_text bs) = Inr bs"
  using a2b_b2a_base64 [of bs 0 0 "[]"]
  by (simp add: b64decode_def bytes_from_decode_data_def liveview_text_ascii liveview_text_bytes)

lemma get_liveview_image_ok:
  assumes "net (camera_state w) (liveview_request self) = (Reply r, c1)" and "status_ok r"
  shows "get_liveview_image net self w =
           (Inr (liveview_text (content r)),
            \<lparr>camera_state = c1, sent = sent w @ [liveview_request self]\<rparr>)"
  using assms
  by (simp add: get_liveview_image_def liveview_request_def requests_call_reply
      raise_for_status_ok)

lemma stub_get_liveview:
  "stub_net (camera_state stub_world) (liveview_request stub_camera) =
     (Reply \<lparr>status_code = 200, reason = ''OK'', content = [255, 216, 255, 224, 7],
             json_body = Inl ''Expecting value: line 1 column 1 (char 0)''\<rparr>, 0)"
  by (simp add: stub_net_def stub_world_def liveview_request_def stub_camera_def)

subsection \<open>The frame survives its transport encoding\<close>

text \<open>
  Claim C10. For every sequence of bytes, the text that \<open>get_liveview_image\<close> builds from it
  (its base64 encoding and a newline) decodes under \<open>b64decode\<close> to the same bytes. So when
  the camera answers the live-view request with a status that passes the check,
  \<open>get_liveview_image\<close> returns that text of the content, and \<open>get_liveview\<close> hands the
  imaging library exactly the bytes the camera sent.
\<close>

theorem liveview_base64_round_trip:
  assumes "net (camera_state w) (liveview_request camera) = (Reply r, c1)" and "status_ok r"
  shows "b64decode (liveview_text bs) = Inr bs
       \<and> last (liveview_text bs) = CHR 0x0A
       \<and> get_liveview_image net camera w =
           (Inr (liveview_text (content r)),
            \<lparr>camera_state = c1, sent = sent w @ [liveview_request camera]\<rparr>)
       \<and> get_liveview net camera P w =
           (deliver_frame P (content r),
            \<lparr>camera_state = c1, sent = sent w @ [liveview_request camera]\<rparr>)"
proof -
  note g = get_liveview_image_ok [where net = net and w = w, OF assms]
  have "get_liveview net camera P w =
           (deliver_frame P (content r),
            \<lparr>camera_state = c1, sent = sent w @ [liveview_request camera]\<rparr>)"
    by (simp add: get_liveview_def g b64decode_liveview_text)
  with g show ?thesis
    by (simp add: b64decode_liveview_text) (simp add: liveview_text_def)
qed

theorem liveview_base64_round_trip_witness:
  "b64decode (liveview_text [255, 216, 255, 224, 7]) = Inr [255, 216, 255, 224, 7]
   \<and> get_liveview stub_net stub_camera stub_pil stub_world =
       (deliver_frame stub_pil [255, 216, 255, 224, 7],
        \<lparr>camera_state = 0, sent = sent stub_world @ [liveview_request stub_camera]\<rparr>)"
proof -
  have h: "status_ok \<lparr>status_code = 200, reason = ''OK'', content = [255, 216, 255, 224, 7],
                      json_body = Inl ''Expecting value: line 1 column 1 (char 0)''\<rparr>"
    by (simp add: status_ok_def)
  from liveview_base64_round_trip
    [where net = stub_net and w = stub_world and bs = "[255, 216, 255, 224, 7]"
       and P = stub_pil, OF stub_get_liveview h]
  show ?thesis by simp
qed

subsection \<open>Timeouts\<close>

text \<open>
  Claim C6. The settings reads and writes pass a timeout of 10 seconds and the frame fetch
  passes 15 seconds, but \<open>init_live_view\<close> issues its \<open>POST\<close> with no timeout at all: the one
  request it sends has \<open>timeout = None\<close>. So not every call to the camera is bounded.
\<close>

theorem init_live_view_passes_no_timeout:
  "sent (snd (init_live_view net camera liveviewsize cameradisplay w)) =
     sent w @ [init_live_view_request camera liveviewsize cameradisplay]
   \<and> timeout (init_live_view_request camera liveviewsize cameradisplay) = None
   \<and> sent (snd (get_all_settings net camera w)) = sent w @ [all_settings_request camera]
   \<and> timeout (all_settings_request camera) = Some 10
   \<and> sent (snd (get_setting net camera n w)) = sent w @ [setting_get_request camera n]
   \<and> timeout (setting_get_request camera n) = Some 10
   \<and> timeout (setting_put_request camera n v) = Some 10
   \<and> sent (snd (get_liveview_image net camera w)) = sent w @ [liveview_request camera]
   \<and> timeout (liveview_request camera) = Some 15"
proof -
  have a: "sent (snd (init_live_view net camera liveviewsize cameradisplay w)) =
     sent w @ [init_live_view_request camera liveviewsize cameradisplay]"
    by (simp add: init_live_view_def init_live_view_request_def requests_call_def Let_def
        split: prod.splits reply.splits)
  have b: "sent (snd (get_all_settings net camera w)) = sent w @ [all_settings_request camera]"
    using camera_get_sent [of net camera "''/ccapi/ver100/shooting/settings''" w]
    by (auto simp: get_all_settings_def all_settings_request_def split: prod.splits sum.splits)
  have c: "sent (snd (get_liveview_image net camera w)) = sent w @ [liveview_request camera]"
    by (simp add: get_liveview_image_def liveview_request_def requests_call_def Let_def
        split: prod.splits reply.splits sum.splits)
  from a b c get_setting_sent [of net camera n w] show ?thesis
    by (simp add: init_live_view_request_def all_settings_request_def setting_get_request_def
        setting_put_request_def liveview_request_def)
qed

section \<open>Properties of the image size adapter\<close>

subsection \<open>Auxiliary facts: the two loops unrolled\<close>

lemma scale_literals:
  "fl (9 / 10) = 8106479329266893 / 9007199254740992"
  "fl (1 / 10) = 3602879701896397 / 36028797018963968"
  by code_simp+

lemma scale_countdown:
  "fsub (8106479329266893 / 9007199254740992) (3602879701896397 / 36028797018963968)
     = 3602879701896397 / 4503599627370496"
  "fsub (3602879701896397 / 4503599627370496) (3602879701896397 / 36028797018963968)
     = 6305039478318695 / 9007199254740992"
  "fsub (6305039478318695 / 9007199254740992) (3602879701896397 / 36028797018963968)
     = 1351079888211149 / 2251799813685248"
  "fsub (1351079888211149 / 2251799813685248) (3602879701896397 / 36028797018963968)
     = 4503599627370497 / 9007199254740992"
  "fsub (4503599627370497 / 9007199254740992) (3602879701896397 / 36028797018963968)
     = 1801439850948199 / 4503599627370496"
  "fsub (1801439850948199 / 4503599627370496) (3602879701896397 / 36028797018963968)
     = 2702159776422299 / 9007199254740992"
  "fsub (2702159776422299 / 9007199254740992) (3602879701896397 / 36028797018963968)
     = 7205759403792799 / 36028797018963968"
  "fsub (7205759403792799 / 36028797018963968) (3602879701896397 / 36028797018963968)
     = 1801439850948201 / 18014398509481984"
  "fsub (1801439850948201 / 18014398509481984) (3602879701896397 / 36028797018963968)
     = 5 / 36028797018963968"
  by code_simp+

lemma resize_loop_step:
  assumes "3602879701896397 / 36028797018963968 < s"
    and "fsub s (3602879701896397 / 36028797018963968) = s'"
  shows "resize_loop P i t fmt s prev =
           (case resized_buffer P i fmt s of
              Inl e \<Rightarrow> Some (Inl e)
            | Inr buf \<Rightarrow>
                if fits t buf then Some (Inr buf)
                else resize_loop P i t fmt s' (Some buf))"
  using assms
  by (subst resize_loop.simps) (simp add: scale_literals fits_def split: sum.splits)

lemma resize_loop_exit:
  "resize_loop P i t fmt (5 / 36028797018963968) prev = Some (search_passes t [] prev)"
  by (subst resize_loop.simps) (simp add: scale_literals split: option.splits)

lemma resize_and_compress_image_unrolled:
  "resize_and_compress_image P i t fmt =
     Some (search_passes t (map (resized_buffer P i fmt) scale_steps) None)"
  unfolding resize_and_compress_image_def scale_literals
  apply (subst resize_loop_step [OF _ scale_countdown(1)], simp)
  apply (subst resize_loop_step [OF _ scale_countdown(2)], simp)
  apply (subst resize_loop_step [OF _ scale_countdown(3)], simp)
  apply (subst resize_loop_step [OF _ scale_countdown(4)], simp)
  apply (subst resize_loop_step [OF _ scale_countdown(5)], simp)
  apply (subst resize_loop_step [OF _ scale_countdown(6)], simp)
  apply (subst resize_loop_step [OF _ scale_countdown(7)], simp)
  apply (subst resize_loop_step [OF _ scale_countdown(8)], simp)
  apply (subst resize_loop_step [OF _ scale_countdown(9)], simp)
  apply (simp add: resize_loop_exit scale_steps_def split: sum.splits)
  done

lemma quality_loop_unrolled:
  "q = 5 + 5 * int n \<Longrightarrow>
   quality_loop P i t fmt q =
     (case find (\<lambda>q. fits t (quality_buffer P i fmt q)) (qualities_from n q) of
        Some q' \<Rightarrow> Some (Inr (quality_buffer P i fmt q'))
      | None \<Rightarrow> resize_and_compress_image P i t fmt)"
proof (induction n arbitrary: q)
  case 0
  then show ?case by (subst quality_loop.simps) simp
next
  case (Suc n)
  from Suc.prems have "10 \<le> q" and "q - 5 = 5 + 5 * int n" by simp_all
  with Suc.IH [of "q - 5"] show ?case
    by (subst quality_loop.simps) (simp add: Let_def fits_def)
qed

lemma qualities_from_95: "qualities_from 18 95 = qualities"
  by (simp add: qualities_def eval_nat_numeral)

lemma compress_unrolled:
  "compress_image_to_target_size P i mb fmt =
     (case find (\<lambda>q. fits (mb * 1024 * 1024) (quality_buffer P (rgb_for_jpeg P i fmt) fmt q))
             qualities of
        Some q \<Rightarrow> Some (Inr (quality_buffer P (rgb_for_jpeg P i fmt) fmt q))
      | None \<Rightarrow> resize_and_compress_image P (rgb_for_jpeg P i fmt) (mb * 1024 * 1024) fmt)"
  using quality_loop_unrolled [of 95 18 P "rgb_for_jpeg P i fmt" "mb * 1024 * 1024" fmt]
  by (simp add: compress_image_to_target_size_def qualities_from_95)

lemma find_highest:
  fixes xs :: "int list"
  assumes "sorted_wrt (\<lambda>a b. b < a) xs" and "q \<in> set xs" and "Q q"
  shows "\<exists>q' \<in> set xs. find Q xs = Some q' \<and> q \<le> q' \<and> Q q'
            \<and> (\<forall>q'' \<in> set xs. q' < q'' \<longrightarrow> \<not> Q q'')"
  using assms
proof (induction xs)
  case Nil
  then show ?case by simp
next
  case (Cons x xs)
  show ?case
  proof (cases "Q x")
    case True
    with Cons.prems show ?thesis by auto
  next
    case False
    with Cons.prems have "q \<in> set xs" by auto
    with Cons obtain q' where "q' \<in> set xs" "find Q xs = Some q'" "q \<le> q'" "Q q'"
      "\<forall>q'' \<in> set xs. q' < q'' \<longrightarrow> \<not> Q q''" by auto
    with False show ?thesis by auto
  qed
qed

lemma qualities_decreasing: "sorted_wrt (\<lambda>a b. b < a) qualities"
  by (simp add: qualities_def)

lemma scale_steps_near_tenths: "list_all2 (\<lambda>s t. \<bar>s - t\<bar> < 1 / 10 ^ 15) scale_steps tenths"
  by (simp add: scale_steps_def tenths_def)

lemma is_jpeg_JPEG: "is_jpeg ''JPEG''"
  by (simp add: is_jpeg_def upper_char_def)

lemma length_zeros: "length (zeros n) = n"
  by (simp add: zeros_def)

lemma stub_rgb: "rgb_for_jpeg stub_pil img fmt = img"
  by (simp add: rgb_for_jpeg_def stub_pil_def)

lemma stub_quality_buffer:
  "quality_buffer stub_pil (w, h) ''JPEG'' q = zeros (w * h * nat q * 200)"
  by (simp add: quality_buffer_def is_jpeg_JPEG stub_pil_def)

lemma stub_resized_buffer:
  "resized_buffer stub_pil (w, h) ''JPEG'' s =
     (if scaled_dimension w s < 1 \<or> scaled_dimension h s < 1
        then Inl (ValueError ''height and width must be > 0'')
      else Inr (zeros (nat (scaled_dimension w s) * nat (scaled_dimension h s) * 75 * 200)))"
  by (simp add: resized_buffer_def resized_image_def is_jpeg_JPEG stub_pil_def Let_def)

lemma scaled_9:
  "scaled_dimension 9 (8106479329266893 / 9007199254740992) = 8"
  "scaled_dimension 9 (3602879701896397 / 4503599627370496) = 7"
  "scaled_dimension 9 (6305039478318695 / 9007199254740992) = 6"
  "scaled_dimension 9 (1351079888211149 / 2251799813685248) = 5"
  "scaled_dimension 9 (4503599627370497 / 9007199254740992) = 4"
  "scaled_dimension 9 (1801439850948199 / 4503599627370496) = 3"
  "scaled_dimension 9 (2702159776422299 / 9007199254740992) = 2"
  "scaled_dimension 9 (7205759403792799 / 36028797018963968) = 1"
  "scaled_dimension 9 (1801439850948201 / 18014398509481984) = 0"
  by code_simp+

subsection \<open>Phase 1\<close>

text \<open>
  Claim C4. \<open>compress_image_to_target_size\<close> returns the encoding at the first quality of
  95, 90, ..., 10 (in this order) whose buffer is within the budget, each encoding being of
  the frame at its original resolution (converted to RGB first where JPEG needs it); when no
  quality fits it goes on to \<open>resize_and_compress_image\<close>. Hence, when some quality of the
  grid fits, the buffer returned is the one of the highest quality of the grid that fits.
\<close>

theorem quality_search_returns_highest_fit:
  "compress_image_to_target_size P i mb fmt =
     (case find (\<lambda>q. fits (mb * 1024 * 1024) (quality_buffer P (rgb_for_jpeg P i fmt) fmt q))
             qualities of
        Some q \<Rightarrow> Some (Inr (quality_buffer P (rgb_for_jpeg P i fmt) fmt q))
      | None \<Rightarrow> resize_and_compress_image P (rgb_for_jpeg P i fmt) (mb * 1024 * 1024) fmt)
   \<and> qualities = [95, 90, 85, 80, 75, 70, 65, 60, 55, 50, 45, 40, 35, 30, 25, 20, 15, 10]
   \<and> (\<forall>q \<in> set qualities.
         fits (mb * 1024 * 1024) (quality_buffer P (rgb_for_jpeg P i fmt) fmt q) \<longrightarrow>
         (\<exists>q' \<in> set qualities.
            q \<le> q'
            \<and> fits (mb * 1024 * 1024) (quality_buffer P (rgb_for_jpeg P i fmt) fmt q')
            \<and> (\<forall>q'' \<in> set qualities. q' < q'' \<longrightarrow>
                  \<not> fits (mb * 1024 * 1024) (quality_buffer P (rgb_for_jpeg P i fmt) fmt q''))
            \<and> compress_image_to_target_size P i mb fmt =
                Some (Inr (quality_buffer P (rgb_for_jpeg P i fmt) fmt q'))))"
proof -
  let ?Q = "\<lambda>q. fits (mb * 1024 * 1024) (quality_buffer P (rgb_for_jpeg P i fmt) fmt q)"
  have a: "compress_image_to_target_size P i mb fmt =
     (case find ?Q qualities of
        Some q \<Rightarrow> Some (Inr (quality_buffer P (rgb_for_jpeg P i fmt) fmt q))
      | None \<Rightarrow> resize_and_compress_image P (rgb_for_jpeg P i fmt) (mb * 1024 * 1024) fmt)"
    by (rule compress_unrolled)
  have c: "\<exists>q' \<in> set qualities. q \<le> q' \<and> ?Q q' \<and> (\<forall>q'' \<in> set qualities. q' < q'' \<longrightarrow> \<not> ?Q q'')
            \<and> compress_image_to_target_size P i mb fmt =
                Some (Inr (quality_buffer P (rgb_for_jpeg P i fmt) fmt q'))"
    if "q \<in> set qualities" "?Q q" for q
  proof -
    from find_highest [of qualities q ?Q, OF qualities_decreasing that]
    obtain q' where "q' \<in> set qualities" "find ?Q qualities = Some q'" "q \<le> q'" "?Q q'"
      "\<forall>q'' \<in> set qualities. q' < q'' \<longrightarrow> \<not> ?Q q''" by blast
    with a show ?thesis by auto
  qed
  have b: "qualities = [95, 90, 85, 80, 75, 70, 65, 60, 55, 50, 45, 40, 35, 30, 25, 20, 15, 10]"
    by (rule qualities_def)
  from c have c': "\<forall>q \<in> set qualities. ?Q q \<longrightarrow>
      (\<exists>q' \<in> set qualities. q \<le> q' \<and> ?Q q' \<and> (\<forall>q'' \<in> set qualities. q' < q'' \<longrightarrow> \<not> ?Q q'')
            \<and> compress_image_to_target_size P i mb fmt =
                Some (Inr (quality_buffer P (rgb_for_jpeg P i fmt) fmt q')))"
    by blast
  show ?thesis by (rule conjI [OF a conjI [OF b c']])
qed

theorem quality_search_returns_highest_fit_witness:
  "compress_image_to_target_size stub_pil (10, 10) 1 ''JPEG'' = Some (Inr (zeros 1000000))"
proof -
  have f: "find (\<lambda>q. fits (1 * 1024 * 1024)
                   (quality_buffer stub_pil (rgb_for_jpeg stub_pil (10, 10) ''JPEG'') ''JPEG'' q))
             qualities = Some 50"
    by (simp add: qualities_def stub_rgb stub_quality_buffer fits_def length_zeros)
  from quality_search_returns_highest_fit [of stub_pil "(10, 10)" 1 "''JPEG''", THEN conjunct1]
  show ?thesis
    unfolding f by (simp add: stub_rgb stub_quality_buffer)
qed

subsection \<open>Phase 2\<close>

text \<open>
  Claim C5. The scale factor counts down in floats from 0.9 by 0.1 through nine steps, the
  last just above 0.1; each pass resizes the frame to \<open>int(side * scale)\<close> and encodes it, and
  the first buffer that fits is returned, the buffer of the last pass when none fits. For a
  frame with a side of nine pixels or less the new size of the last pass has a zero side,
  which the imaging library refuses. So with a frame of 9 by 9 pixels and a budget of zero
  bytes, where no pass of either phase fits, the adapter does not return a buffer: it leaves
  with the \<open>ValueError\<close> of \<open>resize\<close>.
\<close>

theorem tiny_frame_ends_in_resize_error:
  "compress_image_to_target_size stub_pil (9, 9) 0 ''JPEG'' =
     Some (Inl (ValueError ''height and width must be > 0''))
   \<and> resize_and_compress_image stub_pil (9, 9) 0 ''JPEG'' =
     Some (Inl (ValueError ''height and width must be > 0''))
   \<and> scaled_dimension 9 (last scale_steps) = 0
   \<and> resized_image stub_pil (9, 9) (last scale_steps) = im_resize stub_pil (9, 9) (0, 0)
   \<and> length scale_steps = 9
   \<and> list_all2 (\<lambda>s t. \<bar>s - t\<bar> < 1 / 10 ^ 15) scale_steps tenths"
proof -
  have p1: "find (\<lambda>q. fits (0 * 1024 * 1024) (quality_buffer stub_pil (9, 9) ''JPEG'' q))
              qualities = None"
    by (simp add: qualities_def stub_quality_buffer fits_def length_zeros)
  have p2: "search_passes 0 (map (resized_buffer stub_pil (9, 9) ''JPEG'') scale_steps) None =
              Inl (ValueError ''height and width must be > 0'')"
    by (simp add: scale_steps_def stub_resized_buffer scaled_9 fits_def length_zeros)
  have b: "resize_and_compress_image stub_pil (9, 9) 0 ''JPEG'' =
     Some (Inl (ValueError ''height and width must be > 0''))"
    by (simp only: resize_and_compress_image_unrolled p2)
  have a: "compress_image_to_target_size stub_pil (9, 9) 0 ''JPEG'' =
     Some (Inl (ValueError ''height and width must be > 0''))"
    using b by (simp only: compress_unrolled p1 stub_rgb option.case) simp
  have c: "scaled_dimension 9 (last scale_steps) = 0"
    by (simp add: scale_steps_def scaled_9)
  have d: "resized_image stub_pil (9, 9) (last scale_steps) = im_resize stub_pil (9, 9) (0, 0)"
    using c by (simp add: resized_image_def stub_pil_def)
  have e: "length scale_steps = 9" by (simp add: scale_steps_def)
  from a b c d e scale_steps_near_tenths show ?thesis by blast
qed

end
